theory Spec2Isabelle
  imports Complex_Main "HOL-Library.Sublist"
begin

section \<open>Python strings\<close>

text \<open>
  A Python \<open>str\<close> is modelled as a \<open>string\<close>: the list of its characters, one \<open>char\<close> per
  code point, for code points below 256. Strings holding characters beyond that range are
  outside the model.
\<close>

datatype py_error = ValueError

definition isspace :: "char \<Rightarrow> bool" where
  \<comment> \<open>\<open>str.isspace\<close> on one character: the code points below 256 that Python treats as
      whitespace (TAB, LF, VT, FF, CR, FS, GS, RS, US, SPACE, NEL, NBSP).\<close>
  "isspace c \<longleftrightarrow> c \<in> set [CHR 0x09, CHR 0x0A, CHR 0x0B, CHR 0x0C, CHR 0x0D,
      CHR 0x1C, CHR 0x1D, CHR 0x1E, CHR 0x1F, CHR 0x20, CHR 0x85, CHR 0xA0]"

definition strip :: "string \<Rightarrow> string" where
  \<comment> \<open>\<open>s.strip()\<close>: leading and trailing whitespace removed.\<close>
  "strip s = rev (dropWhile isspace (rev (dropWhile isspace s)))"

definition is_digit :: "char \<Rightarrow> bool" where
  \<comment> \<open>\<open>\d\<close> of \<open>re\<close> on a character below 256: the ten ASCII digits.\<close>
  "is_digit c \<longleftrightarrow> c \<in> set ''0123456789''"

definition digit_val :: "char \<Rightarrow> int" where
  "digit_val c = of_char c - 48"

definition int_of_digits :: "string \<Rightarrow> int" where
  \<comment> \<open>\<open>int(s)\<close> on a string of ASCII digits.\<close>
  "int_of_digits s = foldl (\<lambda>a c. 10 * a + digit_val c) 0 s"

definition lower_char :: "char \<Rightarrow> char" where
  \<comment> \<open>\<open>str.lower\<close> on one character below 256: A-Z and the Latin-1 capitals
      (0xC0-0xDE without the multiplication sign 0xD7) move up by 32.\<close>
  "lower_char c =
     (let n = (of_char c :: nat)
      in if (65 \<le> n \<and> n \<le> 90) \<or> (192 \<le> n \<and> n \<le> 222 \<and> n \<noteq> 215)
         then char_of (n + 32) else c)"

definition lower :: "string \<Rightarrow> string" where
  "lower s = map lower_char s"

fun starts_with :: "string \<Rightarrow> string \<Rightarrow> bool" where
  "starts_with [] t = True"
| "starts_with (a # w) [] = False"
| "starts_with (a # w) (b # t) = (a = b \<and> starts_with w t)"

fun contains :: "string \<Rightarrow> string \<Rightarrow> bool" where
  \<comment> \<open>\<open>w in t\<close> for strings: \<open>w\<close> occurs in \<open>t\<close> as a contiguous substring.\<close>
  "contains w [] = (w = [])"
| "contains w (b # t) = (starts_with w (b # t) \<or> contains w t)"

fun join :: "string \<Rightarrow> string list \<Rightarrow> string" where
  \<comment> \<open>\<open>sep.join(xs)\<close>\<close>
  "join sep [] = []"
| "join sep [x] = x"
| "join sep (x # y # ys) = x @ sep @ join sep (y # ys)"

section \<open>Dates: \<open>datetime.strptime(s, "%d-%m-%Y")\<close> and date arithmetic\<close>

datatype date = Date (year: int) (month: int) (day: int)

definition is_leap :: "int \<Rightarrow> bool" where
  "is_leap y \<longleftrightarrow> y mod 4 = 0 \<and> (y mod 100 \<noteq> 0 \<or> y mod 400 = 0)"

definition DAYS_IN_MONTH :: "int list" where
  "DAYS_IN_MONTH = [-1, 31, 28, 31, 30, 31, 30, 31, 31, 30, 31, 30, 31]"

definition DAYS_BEFORE_MONTH :: "int list" where
  "DAYS_BEFORE_MONTH = [-1, 0, 31, 59, 90, 120, 151, 181, 212, 243, 273, 304, 334]"

definition days_in_month :: "int \<Rightarrow> int \<Rightarrow> int" where
  \<comment> \<open>called with \<open>1 \<le> m \<le> 12\<close> only\<close>
  "days_in_month y m = (if m = 2 \<and> is_leap y then 29 else DAYS_IN_MONTH ! nat m)"

definition days_before_year :: "int \<Rightarrow> int" where
  "days_before_year y = (let y1 = y - 1 in y1 * 365 + y1 div 4 - y1 div 100 + y1 div 400)"

definition days_before_month :: "int \<Rightarrow> int \<Rightarrow> int" where
  \<comment> \<open>called with \<open>1 \<le> m \<le> 12\<close> only\<close>
  "days_before_month y m = DAYS_BEFORE_MONTH ! nat m + (if m > 2 \<and> is_leap y then 1 else 0)"

definition toordinal :: "date \<Rightarrow> int" where
  \<comment> \<open>\<open>date.toordinal()\<close>: 1 for 0001-01-01\<close>
  "toordinal dt = days_before_year (year dt) + days_before_month (year dt) (month dt) + day dt"

definition new_date :: "int \<Rightarrow> int \<Rightarrow> int \<Rightarrow> py_error + date" where
  \<comment> \<open>the constructor \<open>date(year, month, day)\<close>, which raises ValueError out of range\<close>
  "new_date y m d =
     (if \<not> (1 \<le> y \<and> y \<le> 9999) then Inl ValueError
      else if \<not> (1 \<le> m \<and> m \<le> 12) then Inl ValueError
      else if \<not> (1 \<le> d \<and> d \<le> days_in_month y m) then Inl ValueError
      else Inr (Date y m d))"

definition days_between :: "date \<Rightarrow> date \<Rightarrow> int" where
  \<comment> \<open>\<open>(b - a).days\<close> for two dates (or two datetimes at midnight)\<close>
  "days_between a b = toordinal b - toordinal a"

definition date_lt :: "date \<Rightarrow> date \<Rightarrow> bool" where
  \<comment> \<open>\<open>a < b\<close> on dates: the comparison of \<open>(year, month, day)\<close>\<close>
  "date_lt a b \<longleftrightarrow> year a < year b \<or> (year a = year b \<and>
      (month a < month b \<or> (month a = month b \<and> day a < day b)))"

definition date_le :: "date \<Rightarrow> date \<Rightarrow> bool" where
  "date_le a b \<longleftrightarrow> date_lt a b \<or> a = b"

text \<open>
  \<open>strptime\<close> compiles the format \<open>%d-%m-%Y\<close> to the regular expression
  \<^verbatim>\<open>(?P<d>3[0-1]|[1-2]\d|0[1-9]|[1-9]| [1-9])-(?P<m>1[0-2]|0[1-9]|[1-9])-(?P<Y>\d\d\d\d)\<close>,
  matches it at the start of the string, and raises ValueError when there is no match
  or when text remains after the match. Each piece of the expression is a function from
  the remaining text to the list of its possible matches, in the order in which the
  backtracking matcher tries them; the first complete match is the one \<open>re\<close> finds.
\<close>

definition re_lit :: "char \<Rightarrow> string \<Rightarrow> string list" where
  "re_lit c s = (case s of a # r \<Rightarrow> if a = c then [r] else [] | [] \<Rightarrow> [])"

definition re_two :: "string \<Rightarrow> string \<Rightarrow> string \<Rightarrow> (int \<times> string) list" where
  \<comment> \<open>one character of the class \<open>as\<close>, then one of the class \<open>bs\<close>\<close>
  "re_two as bs s =
     (case s of a # b # r \<Rightarrow>
        if a \<in> set as \<and> b \<in> set bs
        then [(int_of_digits (filter is_digit [a, b]), r)] else []
      | _ \<Rightarrow> [])"

definition re_one :: "string \<Rightarrow> string \<Rightarrow> (int \<times> string) list" where
  "re_one as s =
     (case s of a # r \<Rightarrow> if a \<in> set as then [(int_of_digits [a], r)] else [] | [] \<Rightarrow> [])"

definition re_d :: "string \<Rightarrow> (int \<times> string) list" where
  \<comment> \<open>\<^verbatim>\<open>3[0-1]|[1-2]\d|0[1-9]|[1-9]| [1-9]\<close>\<close>
  "re_d s = re_two ''3'' ''01'' s @ re_two ''12'' ''0123456789'' s
          @ re_two ''0'' ''123456789'' s @ re_one ''123456789'' s
          @ re_two '' '' ''123456789'' s"

definition re_m :: "string \<Rightarrow> (int \<times> string) list" where
  \<comment> \<open>\<^verbatim>\<open>1[0-2]|0[1-9]|[1-9]\<close>\<close>
  "re_m s = re_two ''1'' ''012'' s @ re_two ''0'' ''123456789'' s @ re_one ''123456789'' s"

definition re_Y :: "string \<Rightarrow> (int \<times> string) list" where
  \<comment> \<open>\<^verbatim>\<open>\d\d\d\d\<close>\<close>
  "re_Y s =
     (case s of a # b # c # d # r \<Rightarrow>
        if is_digit a \<and> is_digit b \<and> is_digit c \<and> is_digit d
        then [(int_of_digits [a, b, c, d], r)] else []
      | _ \<Rightarrow> [])"

definition re_dmy :: "string \<Rightarrow> ((int \<times> int \<times> int) \<times> string) list" where
  "re_dmy s =
     concat (map (\<lambda>(d, s1).
       concat (map (\<lambda>s2.
         concat (map (\<lambda>(m, s3).
           concat (map (\<lambda>s4.
             map (\<lambda>(y, s5). ((d, m, y), s5)) (re_Y s4))
           (re_lit CHR ''-'' s3)))
         (re_m s2)))
       (re_lit CHR ''-'' s1)))
     (re_d s))"

definition strptime :: "string \<Rightarrow> py_error + date" where
  "strptime s =
     (case re_dmy s of
        [] \<Rightarrow> Inl ValueError
      | ((d, m, y), rest) # _ \<Rightarrow>
          if rest \<noteq> [] then Inl ValueError else new_date y m d)"

section \<open>\<open>re.match\<close> on the phone pattern and \<open>float\<close> on a string\<close>

text \<open>
  The phone pattern is \<^verbatim>\<open>^(\+?\d{10})$\<close>, compiled without flags. \<open>\+?\<close> is greedy: the
  matcher first tries to consume a plus sign and falls back to consuming nothing. \<open>$\<close>
  matches at the end of the string and also just before a newline that ends the string.
\<close>

definition re_opt_plus :: "string \<Rightarrow> string list" where
  "re_opt_plus s = (case s of a # r \<Rightarrow> if a = CHR ''+'' then [r, s] else [s] | [] \<Rightarrow> [s])"

definition re_digits10 :: "string \<Rightarrow> string list" where
  "re_digits10 s = (if 10 \<le> length s \<and> list_all is_digit (take 10 s) then [drop 10 s] else [])"

definition re_dollar :: "string \<Rightarrow> bool" where
  "re_dollar s \<longleftrightarrow> s = [] \<or> s = [CHR 0x0A]"

definition phone_pattern_match :: "string \<Rightarrow> bool" where
  \<comment> \<open>\<^verbatim>\<open>re.match(r'^(\+?\d{10})$', phone) is not None\<close>\<close>
  "phone_pattern_match phone = list_ex re_dollar (concat (map re_digits10 (re_opt_plus phone)))"

text \<open>
  \<open>float(s)\<close> on a string either raises ValueError or gives a float. The validator only
  compares the float with zero, so a float is kept as what was parsed: not-a-number, an
  infinity with its sign, or a sign with a decimal mantissa \<open>m\<close> and exponent \<open>e\<close>, standing
  for the double nearest to \<open>m * 10 ^ e\<close>. The conversion is correctly rounded (ties to
  even), so a positive decimal becomes the double zero exactly when it is at most
  \<open>2 ^ -1075\<close>, half of the smallest positive double.
\<close>

datatype pyfloat = NaN | Inf bool | Dec bool int int

definition rounds_to_zero :: "int \<Rightarrow> int \<Rightarrow> bool" where
  "rounds_to_zero m e = (if 0 \<le> e then m = 0 else m * 2 ^ 1075 \<le> 10 ^ nat (- e))"

fun float_le_zero :: "pyfloat \<Rightarrow> bool" where
  \<comment> \<open>\<open>x <= 0\<close>\<close>
  "float_le_zero NaN = False"
| "float_le_zero (Inf neg) = neg"
| "float_le_zero (Dec neg m e) = (neg \<or> rounds_to_zero m e)"

definition float_space :: "char \<Rightarrow> bool" where
  \<comment> \<open>the whitespace \<open>float\<close> strips: ASCII whitespace, and NEL and NBSP, which the
      conversion first turns into spaces\<close>
  "float_space c \<longleftrightarrow> c \<in> set [CHR 0x09, CHR 0x0A, CHR 0x0B, CHR 0x0C, CHR 0x0D,
      CHR 0x20, CHR 0x85, CHR 0xA0]"

fun strip_underscores :: "char \<Rightarrow> string \<Rightarrow> string option" where
  \<comment> \<open>an underscore is allowed between two digits only; the first argument is the
      previous character\<close>
  "strip_underscores prev [] = (if prev = CHR ''_'' then None else Some [])"
| "strip_underscores prev (c # cs) =
     (if c = CHR ''_''
      then (if is_digit prev then strip_underscores c cs else None)
      else if prev = CHR ''_'' \<and> \<not> is_digit c then None
      else map_option ((#) c) (strip_underscores c cs))"

definition split_sign :: "string \<Rightarrow> bool \<times> string" where
  "split_sign s =
     (case s of
        c # r \<Rightarrow> if c = CHR ''-'' then (True, r) else if c = CHR ''+'' then (False, r) else (False, s)
      | [] \<Rightarrow> (False, []))"

definition parse_exponent :: "string \<Rightarrow> int option" where
  \<comment> \<open>what follows the mantissa: nothing, or \<open>e\<close>/\<open>E\<close>, an optional sign and digits\<close>
  "parse_exponent s =
     (case s of
        [] \<Rightarrow> Some 0
      | c # r \<Rightarrow>
          if c \<in> set ''eE''
          then (let (neg, ds) = split_sign r
                in if ds \<noteq> [] \<and> list_all is_digit ds
                   then Some ((if neg then - 1 else 1) * int_of_digits ds) else None)
          else None)"

definition parse_inf_or_nan :: "string \<Rightarrow> pyfloat option" where
  "parse_inf_or_nan s =
     (let (neg, r) = split_sign s; w = lower r
      in if w = ''inf'' \<or> w = ''infinity'' then Some (Inf neg)
         else if w = ''nan'' then Some NaN else None)"

definition float_literal :: "string \<Rightarrow> pyfloat option" where
  "float_literal s =
     (let (neg, s1) = split_sign s;
          ip = takeWhile is_digit s1;
          s2 = dropWhile is_digit s1;
          (fp, s3) = (case s2 of
                        c # r \<Rightarrow> if c = CHR ''.'' then (takeWhile is_digit r, dropWhile is_digit r)
                                 else ([], s2)
                      | [] \<Rightarrow> ([], []))
      in if ip = [] \<and> fp = [] then parse_inf_or_nan s
         else (case parse_exponent s3 of
                 None \<Rightarrow> None
               | Some e \<Rightarrow> Some (Dec neg (int_of_digits (ip @ fp)) (e - int (length fp)))))"

definition py_float :: "string \<Rightarrow> py_error + pyfloat" where
  \<comment> \<open>\<open>float(s)\<close>\<close>
  "py_float s =
     (case strip_underscores (CHR 0x00) s of
        None \<Rightarrow> Inl ValueError
      | Some t \<Rightarrow>
         (case float_literal (rev (dropWhile float_space (rev (dropWhile float_space t)))) of
            None \<Rightarrow> Inl ValueError
          | Some x \<Rightarrow> Inr x))"

section \<open>The booking validator and the price calculator\<close>

definition ROOM_TYPES :: "string list" where
  "ROOM_TYPES = [''Single'', ''Double'', ''Luxury'']"

definition ROOM_PRICES :: "(string \<times> int) list" where
  "ROOM_PRICES = [(''Single'', 2000), (''Double'', 5000), (''Luxury'', 10000)]"

definition is_valid_date :: "string \<Rightarrow> bool" where
  "is_valid_date date_str = (case strptime date_str of Inr _ \<Rightarrow> True | Inl ValueError \<Rightarrow> False)"

definition calculate_price :: "string \<Rightarrow> string \<Rightarrow> string \<Rightarrow> int option" where
  \<comment> \<open>\<open>None\<close> is Python's \<open>None\<close>; every exception is caught and gives \<open>None\<close>\<close>
  "calculate_price check_in check_out room_type =
     (case strptime check_in of
        Inl _ \<Rightarrow> None
      | Inr dt_in \<Rightarrow>
         (case strptime check_out of
            Inl _ \<Rightarrow> None
          | Inr dt_out \<Rightarrow>
              let days = days_between dt_in dt_out
              in if days \<le> 0 then None
                 else Some ((case map_of ROOM_PRICES room_type of Some r \<Rightarrow> r | None \<Rightarrow> 0) * days)))"

definition is_valid_phone :: "string \<Rightarrow> bool" where
  "is_valid_phone phone = (if strip phone = [] then True else phone_pattern_match phone)"

definition validate_inputs ::
  "date \<Rightarrow> string \<Rightarrow> string \<Rightarrow> string \<Rightarrow> string \<Rightarrow> string \<Rightarrow> string \<Rightarrow> py_error + (bool \<times> string)" where
  \<comment> \<open>the first argument is what \<open>datetime.now().date()\<close> returns during the call; \<open>Inl\<close>
      is an exception that leaves the function\<close>
  "validate_inputs today name phone room_type check_in check_out price_str =
     (let errors = [];
          errors = (if strip name = [] then errors @ [''Customer name is required.''] else errors);
          errors = (if \<not> is_valid_phone phone
                    then errors @ [''Phone number should be 10 digits (optional + at start).'']
                    else errors);
          errors = (if room_type = [] \<or> room_type \<notin> set ROOM_TYPES
                    then errors @ [''Select a valid room type.''] else errors);
          errors = (if \<not> is_valid_date check_in
                    then errors @ [''Check-in must be in DD-MM-YYYY format.''] else errors);
          errors = (if \<not> is_valid_date check_out
                    then errors @ [''Check-out must be in DD-MM-YYYY format.''] else errors)
      in if errors \<noteq> [] then Inr (False, join [CHR 0x0A] errors)
         else
          (case strptime check_in of
             Inl e \<Rightarrow> Inl e
           | Inr check_in_dt \<Rightarrow>
              (case strptime check_out of
                 Inl e \<Rightarrow> Inl e
               | Inr check_out_dt \<Rightarrow>
                  (let errors = (if date_lt check_in_dt today
                                 then errors @ [''Check-in date cannot be in the past.'']
                                 else errors);
                       errors = (if date_le check_out_dt check_in_dt
                                 then errors @ [''Check-out must be after Check-in.'']
                                 else errors);
                       errors = (if days_between check_in_dt check_out_dt > 30
                                 then errors @ [''Maximum stay duration is 30 days.'']
                                 else errors);
                       errors = (case py_float price_str of
                                   Inr price \<Rightarrow>
                                     if float_le_zero price
                                     then errors @ [''Price must be positive.''] else errors
                                 | Inl ValueError \<Rightarrow> errors @ [''Price must be a number.''])
                   in if errors \<noteq> [] then Inr (False, join [CHR 0x0A] errors)
                      else Inr (True, [])))))"

section \<open>The sentiment classifier\<close>

definition positive_words :: "string list" where
  "positive_words =
     [''good'', ''great'', ''excellent'', ''amazing'', ''wonderful'', ''fantastic'', ''nice'']"

definition negative_words :: "string list" where
  "negative_words = [''bad'', ''terrible'', ''awful'', ''horrible'', ''poor'', ''disappointing'']"

definition analyze_sentiment :: "bool \<Rightarrow> (string \<Rightarrow> real) \<Rightarrow> string option \<Rightarrow> string" where
  \<comment> \<open>The first argument is the module's \<open>_USE_VADER\<close>, fixed when the module is loaded;
      the second is the compound score of \<open>_VADER.polarity_scores\<close>, a library outside
      the repository. The review is \<open>None\<close> or a string.\<close>
  "analyze_sentiment USE_VADER compound review =
     (let text = strip (case review of None \<Rightarrow> [] | Some r \<Rightarrow> r)
      in if text = [] then ''Neutral''
         else if USE_VADER then
           (let score = compound text
            in if score \<ge> 0.05 then ''Positive''
               else if score \<le> - 0.05 then ''Negative''
               else ''Neutral'')
         else
           (let text_lower = lower text;
                positive_count =
                  (\<Sum>word \<leftarrow> filter (\<lambda>word. contains word text_lower) positive_words. (1::int));
                negative_count =
                  (\<Sum>word \<leftarrow> filter (\<lambda>word. contains word text_lower) negative_words. (1::int))
            in if positive_count > negative_count then ''Positive''
               else if negative_count > positive_count then ''Negative''
               else ''Neutral''))"

section \<open>The specification's words, as definitions\<close>

definition catalog_rate :: "string \<Rightarrow> int" where
  "catalog_rate room =
     (if room = ''Single'' then 2000 else if room = ''Double'' then 5000
      else if room = ''Luxury'' then 10000 else 0)"

fun occurrences :: "string \<Rightarrow> string \<Rightarrow> nat" where
  \<comment> \<open>the number of places of \<open>t\<close> at which \<open>w\<close> occurs as a substring\<close>
  "occurrences w [] = (if w = [] then 1 else 0)"
| "occurrences w (b # t) = (if starts_with w (b # t) then 1 else 0) + occurrences w t"

definition fallback_label :: "string \<Rightarrow> string" where
  \<comment> \<open>the rule with occurrences counted: every occurrence of a term of a set adds one
      to the count of that set\<close>
  "fallback_label text =
     (let t = lower text;
          pos = (\<Sum>w \<leftarrow> [''good'', ''great'', ''excellent'', ''amazing'', ''wonderful'',
                        ''fantastic'', ''nice'']. occurrences w t);
          neg = (\<Sum>w \<leftarrow> [''bad'', ''terrible'', ''awful'', ''horrible'', ''poor'',
                        ''disappointing'']. occurrences w t)
      in if pos > neg then ''Positive'' else if neg > pos then ''Negative'' else ''Neutral'')"

definition fallback_label_once :: "string \<Rightarrow> string" where
  \<comment> \<open>the rule with terms counted: a term of a set adds one to the count of that set
      when it occurs in the text, however often it occurs\<close>
  "fallback_label_once text =
     (let t = lower text;
          pos = card {w \<in> {''good'', ''great'', ''excellent'', ''amazing'', ''wonderful'',
                            ''fantastic'', ''nice''}. sublist w t};
          neg = card {w \<in> {''bad'', ''terrible'', ''awful'', ''horrible'', ''poor'',
                            ''disappointing''}. sublist w t}
      in if pos > neg then ''Positive'' else if neg > pos then ''Negative'' else ''Neutral'')"

definition no_analyzer :: "string \<Rightarrow> real" where
  \<comment> \<open>an analyzer for the calls in which none is consulted\<close>
  "no_analyzer text = 0"

definition phone_format :: "string \<Rightarrow> bool" where
  \<comment> \<open>an optional leading plus sign followed by exactly ten digits, and nothing else\<close>
  "phone_format p =
     (let ds = (case p of c # r \<Rightarrow> if c = CHR ''+'' then r else p | [] \<Rightarrow> [])
      in length ds = 10 \<and> list_all is_digit ds)"

definition valid_date :: "date \<Rightarrow> bool" where
  \<comment> \<open>the dates that exist: what the constructor accepts\<close>
  "valid_date dt \<longleftrightarrow> 1 \<le> year dt \<and> year dt \<le> 9999 \<and> 1 \<le> month dt \<and> month dt \<le> 12
      \<and> 1 \<le> day dt \<and> day dt \<le> days_in_month (year dt) (month dt)"

definition phone_rule :: "string \<Rightarrow> bool" where
  \<comment> \<open>rule 2: a phone that is blank after trimming passes; any other phone passes
      exactly when it has the phone format\<close>
  "phone_rule phone \<longleftrightarrow> strip phone = [] \<or> phone_format phone"

definition phase1_failures :: "string \<Rightarrow> string \<Rightarrow> string \<Rightarrow> string \<Rightarrow> string \<Rightarrow> string list" where
  \<comment> \<open>the messages of the rules 1 to 5 that fail, in the order of the rules\<close>
  "phase1_failures name phone room_type check_in check_out =
     map snd (filter fst
       [(strip name = [], ''Customer name is required.''),
        (\<not> phone_rule phone, ''Phone number should be 10 digits (optional + at start).''),
        (room_type \<notin> {''Single'', ''Double'', ''Luxury''}, ''Select a valid room type.''),
        (strptime check_in = Inl ValueError, ''Check-in must be in DD-MM-YYYY format.''),
        (strptime check_out = Inl ValueError, ''Check-out must be in DD-MM-YYYY format.'')])"

definition phase1_errors :: "string \<Rightarrow> string \<Rightarrow> string \<Rightarrow> string \<Rightarrow> string \<Rightarrow> string list" where
  \<comment> \<open>the list that the first pass of \<open>validate_inputs\<close> collects, with the checks of
      the code: \<open>is_valid_phone\<close>, \<open>ROOM_TYPES\<close> and \<open>is_valid_date\<close>\<close>
  "phase1_errors name phone room_type check_in check_out =
     map snd (filter fst
       [(strip name = [], ''Customer name is required.''),
        (\<not> is_valid_phone phone, ''Phone number should be 10 digits (optional + at start).''),
        (room_type \<notin> set ROOM_TYPES, ''Select a valid room type.''),
        (\<not> is_valid_date check_in, ''Check-in must be in DD-MM-YYYY format.''),
        (\<not> is_valid_date check_out, ''Check-out must be in DD-MM-YYYY format.'')])"

definition phase2_failures :: "date \<Rightarrow> date \<Rightarrow> date \<Rightarrow> string \<Rightarrow> string list" where
  \<comment> \<open>the list that the second pass of \<open>validate_inputs\<close> collects for parsed check-in
      and check-out dates: the messages of the rules 6 to 9 that fail as the code checks
      them, in the order of the rules; rule 9 has one message for a price that is not a
      number and one for a number that is not positive\<close>
  "phase2_failures today check_in_dt check_out_dt price_str =
     map snd (filter fst
       [(date_lt check_in_dt today, ''Check-in date cannot be in the past.''),
        (date_le check_out_dt check_in_dt, ''Check-out must be after Check-in.''),
        (30 < days_between check_in_dt check_out_dt, ''Maximum stay duration is 30 days.''),
        ((case py_float price_str of Inr price \<Rightarrow> float_le_zero price | Inl e \<Rightarrow> False),
           ''Price must be positive.''),
        ((case py_float price_str of Inr price \<Rightarrow> False | Inl e \<Rightarrow> True),
           ''Price must be a number.'')])"

section \<open>Properties of the price calculator\<close>

lemma ROOM_PRICES_get: "(case map_of ROOM_PRICES room of Some r \<Rightarrow> r | None \<Rightarrow> 0) = catalog_rate room"
  by (simp add: ROOM_PRICES_def catalog_rate_def)

lemma calculate_price_parsed:
  "strptime a = Inr da \<Longrightarrow> strptime b = Inr db \<Longrightarrow>
   calculate_price a b room =
     (if days_between da db \<le> 0 then None else Some (catalog_rate room * days_between da db))"
  by (simp add: calculate_price_def ROOM_PRICES_get Let_def)

lemma calculate_price_unparsed:
  "strptime a = Inl e \<or> strptime b = Inl e' \<Longrightarrow> calculate_price a b room = None"
  by (auto simp: calculate_price_def split: sum.splits)

text \<open>
  Claim C4. When both date strings parse and the check-out date is a positive number of
  whole days after the check-in date, \<open>calculate_price\<close> returns that number of days times
  the catalog rate of the room (Single 2000, Double 5000, Luxury 10000); a room outside
  the catalog has rate 0, so the price is 0 and no error is raised.
\<close>

theorem calculate_price_nights_times_rate:
  assumes "strptime a = Inr da" and "strptime b = Inr db" and "0 < days_between da db"
  shows "calculate_price a b room = Some (days_between da db * catalog_rate room)
       \<and> (room \<notin> set ROOM_TYPES \<longrightarrow> calculate_price a b room = Some 0)"
  using assms by (simp add: calculate_price_parsed catalog_rate_def ROOM_TYPES_def)

theorem calculate_price_nights_times_rate_witness:
  "strptime ''01-01-2025'' = Inr (Date 2025 1 1) \<and> strptime ''04-01-2025'' = Inr (Date 2025 1 4)
   \<and> 0 < days_between (Date 2025 1 1) (Date 2025 1 4)
   \<and> calculate_price ''01-01-2025'' ''04-01-2025'' ''Double'' = Some 15000
   \<and> calculate_price ''01-01-2025'' ''04-01-2025'' ''Suite'' = Some 0"
proof -
  have h1: "strptime ''01-01-2025'' = Inr (Date 2025 1 1)" by code_simp
  have h2: "strptime ''04-01-2025'' = Inr (Date 2025 1 4)" by code_simp
  have h3: "days_between (Date 2025 1 1) (Date 2025 1 4) = 3" by code_simp
  have h4: "0 < days_between (Date 2025 1 1) (Date 2025 1 4)" by (simp add: h3)
  have r1: "catalog_rate ''Double'' = 5000" by code_simp
  have r2: "''Suite'' \<notin> set ROOM_TYPES" by code_simp
  have r3: "catalog_rate ''Suite'' = 0" by code_simp
  show ?thesis
    using calculate_price_nights_times_rate [OF h1 h2 h4, of "''Double''"]
          calculate_price_nights_times_rate [OF h1 h2 h4, of "''Suite''"] h1 h2 h3 r1 r2 r3
    by simp
qed

text \<open>
  Claim C5. \<open>calculate_price\<close> returns \<open>None\<close> exactly when one of the two date strings
  fails to parse or the whole-day difference is zero or negative. The function is total:
  every exception of the parser is caught, so no input makes it raise.
\<close>

theorem calculate_price_None_iff:
  "calculate_price a b room = None \<longleftrightarrow>
     strptime a = Inl ValueError \<or> strptime b = Inl ValueError \<or>
     (\<exists>da db. strptime a = Inr da \<and> strptime b = Inr db \<and> days_between da db \<le> 0)"
proof (cases "strptime a")
  case (Inl e)
  then show ?thesis by (cases e) (simp add: calculate_price_def)
next
  case a: (Inr da)
  show ?thesis
  proof (cases "strptime b")
    case (Inl e)
    then show ?thesis using a by (cases e) (simp add: calculate_price_def)
  next
    case (Inr db)
    then show ?thesis using a by (simp add: calculate_price_parsed)
  qed
qed

theorem calculate_price_None_iff_witness:
  "calculate_price ''31-02-2025'' ''04-03-2025'' ''Single'' = None
   \<and> calculate_price ''05-03-2025'' ''04-03-2025'' ''Single'' = None
   \<and> calculate_price ''04-03-2025'' ''05-03-2025'' ''Single'' \<noteq> None"
proof -
  have h1: "strptime ''31-02-2025'' = Inl ValueError" by code_simp
  have h2: "strptime ''05-03-2025'' = Inr (Date 2025 3 5)" by code_simp
  have h3: "strptime ''04-03-2025'' = Inr (Date 2025 3 4)" by code_simp
  have h4: "days_between (Date 2025 3 5) (Date 2025 3 4) = -1" by code_simp
  have h5: "days_between (Date 2025 3 4) (Date 2025 3 5) = 1" by code_simp
  show ?thesis
    using calculate_price_None_iff [of "''31-02-2025''" "''04-03-2025''" "''Single''"]
          calculate_price_None_iff [of "''05-03-2025''" "''04-03-2025''" "''Single''"]
          calculate_price_None_iff [of "''04-03-2025''" "''05-03-2025''" "''Single''"]
          h1 h2 h3 h4 h5
    by simp
qed

text \<open>
  Claim C10. A price that \<open>calculate_price\<close> returns is never negative, and it is positive
  exactly for the three catalog rooms. The calculator has no cap on the number of nights:
  for every pair of dates that parse, however far apart, a positive number of nights is
  priced at that number times the rate. A stay of 1000 nights in a Double room is priced
  at 1000 times 5000, and the longest stay that two dates can express, 3652058 nights,
  is priced as well.
\<close>

theorem calculate_price_sign:
  "(calculate_price a b room = Some p \<longrightarrow>
      0 \<le> p \<and> (0 < p \<longleftrightarrow> room \<in> {''Single'', ''Double'', ''Luxury''}))
   \<and> (strptime a = Inr da \<and> strptime b = Inr db \<and> 0 < days_between da db \<longrightarrow>
        calculate_price a b room = Some (days_between da db * catalog_rate room))
   \<and> calculate_price ''01-01-2025'' ''28-09-2027'' ''Double'' = Some (1000 * 5000)
   \<and> calculate_price ''01-01-0001'' ''31-12-9999'' ''Single'' = Some (3652058 * 2000)"
proof (intro conjI)
  show "calculate_price a b room = Some p \<longrightarrow>
      0 \<le> p \<and> (0 < p \<longleftrightarrow> room \<in> {''Single'', ''Double'', ''Luxury''})"
  proof
    assume p: "calculate_price a b room = Some p"
    then obtain da db where a: "strptime a = Inr da" and b: "strptime b = Inr db"
      by (cases "strptime a"; cases "strptime b") (auto simp: calculate_price_def)
    from p have d: "0 < days_between da db" and v: "p = catalog_rate room * days_between da db"
      by (auto simp: calculate_price_parsed [OF a b] split: if_splits)
    have "0 \<le> catalog_rate room" and "0 < catalog_rate room \<longleftrightarrow> room \<in> {''Single'', ''Double'', ''Luxury''}"
      by (simp_all add: catalog_rate_def)
    then show "0 \<le> p \<and> (0 < p \<longleftrightarrow> room \<in> {''Single'', ''Double'', ''Luxury''})"
      using d v by (simp add: zero_less_mult_iff)
  qed
  show "strptime a = Inr da \<and> strptime b = Inr db \<and> 0 < days_between da db \<longrightarrow>
        calculate_price a b room = Some (days_between da db * catalog_rate room)"
    by (simp add: calculate_price_parsed)
  show "calculate_price ''01-01-2025'' ''28-09-2027'' ''Double'' = Some (1000 * 5000)"
    by code_simp
  show "calculate_price ''01-01-0001'' ''31-12-9999'' ''Single'' = Some (3652058 * 2000)"
    by code_simp
qed

theorem calculate_price_sign_witness:
  "calculate_price ''01-01-2025'' ''02-01-2025'' ''Suite'' = Some 0
   \<and> \<not> (0::int) < 0 \<and> ''Suite'' \<notin> {''Single'', ''Double'', ''Luxury''}
   \<and> strptime ''01-01-2025'' = Inr (Date 2025 1 1)
   \<and> strptime ''29-09-2027'' = Inr (Date 2027 9 29)
   \<and> days_between (Date 2025 1 1) (Date 2027 9 29) = 1001
   \<and> calculate_price ''01-01-2025'' ''29-09-2027'' ''Luxury'' = Some (1001 * 10000)"
proof -
  have h: "calculate_price ''01-01-2025'' ''02-01-2025'' ''Suite'' = Some 0" by code_simp
  have a: "strptime ''01-01-2025'' = Inr (Date 2025 1 1)" by code_simp
  have b: "strptime ''29-09-2027'' = Inr (Date 2027 9 29)" by code_simp
  have d: "days_between (Date 2025 1 1) (Date 2027 9 29) = 1001" by code_simp
  have r: "catalog_rate ''Luxury'' = 10000" by code_simp
  have s: "''Suite'' \<notin> {''Single'', ''Double'', ''Luxury''}" by simp
  have p1: "\<not> (0::int) < 0" by simp
  have "calculate_price ''01-01-2025'' ''29-09-2027'' ''Luxury''
          = Some (days_between (Date 2025 1 1) (Date 2027 9 29) * catalog_rate ''Luxury'')"
    using calculate_price_sign
            [of "''01-01-2025''" "''29-09-2027''" "''Luxury''" 0 "Date 2025 1 1" "Date 2027 9 29"]
          a b d
    by simp
  then have q: "calculate_price ''01-01-2025'' ''29-09-2027'' ''Luxury'' = Some (1001 * 10000)"
    by (simp add: d r)
  show ?thesis using h a b d q s p1 by blast
qed

section \<open>Properties of strings and of the sentiment classifier\<close>

lemma starts_with_prefix: "starts_with w t \<longleftrightarrow> prefix w t"
  by (induction w t rule: starts_with.induct) auto

lemma contains_sublist: "contains w t \<longleftrightarrow> sublist w t"
  by (induction t) (auto simp: starts_with_prefix sublist_Cons_right)

lemma contains_iff: "contains w t \<longleftrightarrow> (\<exists>pre post. t = pre @ w @ post)"
  by (simp add: contains_sublist sublist_def)

lemma join_contains: "m \<in> set es \<Longrightarrow> contains m (join sep es)"
proof (induction sep es rule: join.induct)
  case (1 sep)
  then show ?case by simp
next
  case (2 sep x)
  then show ?case by (simp add: contains_iff) (metis append_Nil append_Nil2)
next
  case (3 sep x y ys)
  show ?case
  proof (cases "m = x")
    case True
    have "join sep (x # y # ys) = [] @ m @ (sep @ join sep (y # ys))"
      using True by simp
    then show ?thesis unfolding contains_iff by blast
  next
    case False
    with 3 obtain pre post where "join sep (y # ys) = pre @ m @ post"
      by (auto simp: contains_iff)
    then have "join sep (x # y # ys) = (x @ sep @ pre) @ m @ post" by simp
    then show ?thesis unfolding contains_iff by blast
  qed
qed

lemma contains_set: "contains w t \<Longrightarrow> set w \<subseteq> set t"
  by (auto simp: contains_iff)

lemma set_join: "set (join sep es) \<subseteq> set sep \<union> \<Union> (set ` set es)"
  by (induction sep es rule: join.induct) auto

lemma strip_empty_iff: "strip s = [] \<longleftrightarrow> (\<forall>c \<in> set s. isspace c)"
proof
  assume e: "strip s = []"
  show "\<forall>c \<in> set s. isspace c"
  proof (cases "dropWhile isspace s")
    case Nil
    then show ?thesis by (simp add: dropWhile_eq_Nil_conv)
  next
    case (Cons x xs)
    then have "\<not> isspace x" using hd_dropWhile [of isspace s] by simp
    moreover from e Cons have "isspace x" by (simp add: strip_def dropWhile_eq_Nil_conv)
    ultimately show ?thesis by simp
  qed
next
  assume "\<forall>c \<in> set s. isspace c"
  then have "dropWhile isspace s = []" by (simp add: dropWhile_eq_Nil_conv)
  then show "strip s = []" unfolding strip_def by (simp only: rev.simps dropWhile.simps)
qed

lemma count_filter_card:
  assumes "distinct ws"
  shows "(\<Sum>word \<leftarrow> filter P ws. (1::int)) = int (card {w \<in> set ws. P w})"
proof -
  have "(\<Sum>word \<leftarrow> filter P ws. (1::int)) = int (length (filter P ws))"
    by (induction ws) auto
  moreover have "card (set (filter P ws)) = length (filter P ws)"
    using assms by (intro distinct_card) simp
  moreover have "set (filter P ws) = {w \<in> set ws. P w}" by simp
  ultimately show ?thesis by simp
qed

lemma positive_words_set:
  "distinct positive_words \<and> set positive_words =
     {''good'', ''great'', ''excellent'', ''amazing'', ''wonderful'', ''fantastic'', ''nice''}"
  by (simp add: positive_words_def)

lemma negative_words_set:
  "distinct negative_words \<and> set negative_words =
     {''bad'', ''terrible'', ''awful'', ''horrible'', ''poor'', ''disappointing''}"
  by (simp add: negative_words_def)

lemma analyze_sentiment_fallback:
  assumes "strip review \<noteq> []"
  shows "analyze_sentiment False compound (Some review) = fallback_label_once (strip review)"
proof -
  have p: "(\<Sum>word \<leftarrow> filter (\<lambda>word. contains word t) positive_words. (1::int)) =
     int (card {w \<in> {''good'', ''great'', ''excellent'', ''amazing'', ''wonderful'',
                            ''fantastic'', ''nice''}. sublist w t})" for t
    using positive_words_set by (simp add: count_filter_card contains_sublist)
  have n: "(\<Sum>word \<leftarrow> filter (\<lambda>word. contains word t) negative_words. (1::int)) =
     int (card {w \<in> {''bad'', ''terrible'', ''awful'', ''horrible'', ''poor'',
                            ''disappointing''}. sublist w t})" for t
    using negative_words_set by (simp add: count_filter_card contains_sublist)
  show ?thesis
    using assms unfolding analyze_sentiment_def fallback_label_once_def Let_def p n
    by simp
qed

text \<open>
  Counting every occurrence of a word and counting every word once give different labels
  when a word is repeated: in "good good good but bad and poor" there are three
  occurrences of positive words and two of negative words, while one positive word and
  two negative words occur. The classifier returns Negative.
\<close>

theorem analyze_sentiment_occurrences_counterexample:
  "analyze_sentiment False no_analyzer (Some ''good good good but bad and poor'') = ''Negative''
   \<and> fallback_label ''good good good but bad and poor'' = ''Positive''"
  by code_simp

text \<open>
  On the three reviews of the specification the two ways of counting agree.
\<close>

lemma fallback_label_examples:
  "fallback_label ''The room was great and the staff were nice'' = ''Positive''
   \<and> fallback_label ''Terrible, awful experience'' = ''Negative''
   \<and> fallback_label ''good but bad'' = ''Neutral''"
  by code_simp

text \<open>
  Claim C3, as amended. Without the primary analyzer, a review that is not blank is
  trimmed and lowercased; the positive count is the number of the seven positive words
  that occur in it as substrings, the negative count the number of the six negative words
  that do: a word counts once however often it occurs, and "poorly" counts for "poor".
  The label is Positive when the positive count is larger, Negative when the negative
  count is larger, Neutral on a tie. The three reviews of the specification get
  Positive, Negative and Neutral, and words written in capitals count as well.
\<close>

theorem analyze_sentiment_fallback_rule:
  "(strip review \<noteq> [] \<longrightarrow>
      analyze_sentiment False compound (Some review) = fallback_label_once (strip review))
   \<and> analyze_sentiment False compound (Some ''The room was great and the staff were nice'') = ''Positive''
   \<and> analyze_sentiment False compound (Some ''Terrible, awful experience'') = ''Negative''
   \<and> analyze_sentiment False compound (Some ''good but bad'') = ''Neutral''
   \<and> analyze_sentiment False compound (Some ''The service was poorly run'') = ''Negative''
   \<and> analyze_sentiment False compound (Some ''GOOD'') = ''Positive''
   \<and> analyze_sentiment False compound (Some ''A TERRIBLE stay'') = ''Negative''
   \<and> lower ''The ROOM was Great'' = ''the room was great''"
proof (intro conjI)
  show "strip review \<noteq> [] \<longrightarrow>
      analyze_sentiment False compound (Some review) = fallback_label_once (strip review)"
    by (simp add: analyze_sentiment_fallback)
  show "analyze_sentiment False compound (Some ''The room was great and the staff were nice'') = ''Positive''"
    by code_simp
  show "analyze_sentiment False compound (Some ''Terrible, awful experience'') = ''Negative''"
    by code_simp
  show "analyze_sentiment False compound (Some ''good but bad'') = ''Neutral''"
    by code_simp
  show "analyze_sentiment False compound (Some ''The service was poorly run'') = ''Negative''"
    by code_simp
  show "analyze_sentiment False compound (Some ''GOOD'') = ''Positive''"
    by code_simp
  show "analyze_sentiment False compound (Some ''A TERRIBLE stay'') = ''Negative''"
    by code_simp
  show "lower ''The ROOM was Great'' = ''the room was great''"
    by code_simp
qed

text \<open>
  Claim C9. A review that is empty or holds only whitespace is Neutral in both modes,
  before the analyzer or the word lists are consulted; an absent review (\<open>None\<close>) is
  treated as the empty string and is Neutral as well.
\<close>

theorem analyze_sentiment_blank:
  "(list_all isspace text \<longrightarrow> analyze_sentiment USE_VADER compound (Some text) = ''Neutral'')
   \<and> analyze_sentiment USE_VADER compound None = ''Neutral''"
proof
  show "list_all isspace text \<longrightarrow> analyze_sentiment USE_VADER compound (Some text) = ''Neutral''"
    by (simp add: analyze_sentiment_def strip_empty_iff list_all_iff)
  have "strip [] = []" by (simp add: strip_def)
  then show "analyze_sentiment USE_VADER compound None = ''Neutral''"
    by (simp add: analyze_sentiment_def)
qed

theorem analyze_sentiment_fallback_rule_witness:
  "strip ''  Poorly cleaned, but a NICE view and GREAT food '' \<noteq> []
   \<and> analyze_sentiment False no_analyzer (Some ''  Poorly cleaned, but a NICE view and GREAT food '')
       = fallback_label_once (strip ''  Poorly cleaned, but a NICE view and GREAT food '')
   \<and> analyze_sentiment False no_analyzer (Some ''  Poorly cleaned, but a NICE view and GREAT food '')
       = ''Positive''"
proof -
  have h: "strip ''  Poorly cleaned, but a NICE view and GREAT food '' \<noteq> []" by code_simp
  have v: "analyze_sentiment False no_analyzer
             (Some ''  Poorly cleaned, but a NICE view and GREAT food '') = ''Positive''"
    by code_simp
  show ?thesis
    using analyze_sentiment_fallback_rule
            [of "''  Poorly cleaned, but a NICE view and GREAT food ''" no_analyzer] h v
    by simp
qed

theorem analyze_sentiment_blank_witness:
  "list_all isspace [CHR 0x20, CHR 0x09, CHR 0x0A]
   \<and> analyze_sentiment True (\<lambda>t. 1) (Some [CHR 0x20, CHR 0x09, CHR 0x0A]) = ''Neutral''
   \<and> analyze_sentiment False (\<lambda>t. 1) (Some ''   '') = ''Neutral''
   \<and> analyze_sentiment True (\<lambda>t. 1) (Some []) = ''Neutral''"
proof -
  have h: "list_all isspace [CHR 0x20, CHR 0x09, CHR 0x0A]" by (simp add: isspace_def)
  have h2: "list_all isspace ''   ''" by (simp add: isspace_def)
  show ?thesis
    using analyze_sentiment_blank [of "[CHR 0x20, CHR 0x09, CHR 0x0A]" True "\<lambda>t. 1"]
          analyze_sentiment_blank [of "''   ''" False "\<lambda>t. 1"]
          analyze_sentiment_blank [of "[]" True "\<lambda>t. 1"] h h2
    by simp
qed

text \<open>
  A word that occurs several times counts once: three times "good" against "bad" and
  "poor" is Negative.
\<close>

lemma analyze_sentiment_counts_once:
  "analyze_sentiment False compound (Some ''good good good but bad and poor'') = ''Negative''"
  by code_simp

section \<open>Properties of dates\<close>

lemma div_step:
  assumes k: "0 < k"
  shows "((z::int) + 1) div k = z div k + (if (z + 1) mod k = 0 then 1 else 0)"
proof -
  define q where "q = z div k"
  define r where "r = z mod k"
  have z: "z = k * q + r" by (simp add: q_def r_def)
  have r: "0 \<le> r" "r < k" using k by (simp_all add: r_def)
  show ?thesis
  proof (cases "r + 1 = k")
    case True
    then have e: "z + 1 = k * (q + 1) + 0" using z by (simp add: algebra_simps)
    have "(z + 1) div k = q + 1"
      using e k by (intro int_div_pos_eq [where r = 0]) simp_all
    moreover have "(z + 1) mod k = 0"
      using e k by (intro int_mod_pos_eq [where q = "q + 1"]) simp_all
    ultimately show ?thesis by (simp add: q_def)
  next
    case False
    then have lt: "r + 1 < k" using r by simp
    have e: "z + 1 = k * q + (r + 1)" using z by simp
    have "(z + 1) div k = q"
      using e lt r by (intro int_div_pos_eq [where r = "r + 1"]) simp_all
    moreover have "(z + 1) mod k = r + 1"
      using e lt r by (intro int_mod_pos_eq [where q = q]) simp_all
    ultimately show ?thesis using r by (simp add: q_def)
  qed
qed

lemma days_before_year_Suc:
  "days_before_year (y + 1) = days_before_year y + 365 + (if is_leap y then 1 else 0)"
proof -
  have d4: "y div 4 = (y - 1) div 4 + (if y mod 4 = 0 then 1 else 0)"
    using div_step [of 4 "y - 1"] by simp
  have d100: "y div 100 = (y - 1) div 100 + (if y mod 100 = 0 then 1 else 0)"
    using div_step [of 100 "y - 1"] by simp
  have d400: "y div 400 = (y - 1) div 400 + (if y mod 400 = 0 then 1 else 0)"
    using div_step [of 400 "y - 1"] by simp
  have m1: "y mod 4 = 0" if "y mod 100 = 0"
  proof -
    from that have "100 dvd y" by (simp add: dvd_eq_mod_eq_0)
    moreover have "(4::int) dvd 100" by simp
    ultimately have "4 dvd y" by (rule dvd_trans [rotated])
    then show ?thesis by (simp add: dvd_eq_mod_eq_0)
  qed
  have m2: "y mod 100 = 0" if "y mod 400 = 0"
  proof -
    from that have "400 dvd y" by (simp add: dvd_eq_mod_eq_0)
    moreover have "(100::int) dvd 400" by simp
    ultimately have "100 dvd y" by (rule dvd_trans [rotated])
    then show ?thesis by (simp add: dvd_eq_mod_eq_0)
  qed
  have e: "days_before_year (y + 1) = y * 365 + y div 4 - y div 100 + y div 400"
    by (simp add: days_before_year_def)
  have f: "days_before_year y = (y - 1) * 365 + (y - 1) div 4 - (y - 1) div 100 + (y - 1) div 400"
    by (simp add: days_before_year_def Let_def)
  show ?thesis
    unfolding e f d4 d100 d400 is_leap_def using m1 m2
    by (cases "y mod 4 = 0"; cases "y mod 100 = 0"; cases "y mod 400 = 0")
       (simp_all add: algebra_simps)
qed

lemma days_before_year_mono: "y \<le> y' \<Longrightarrow> days_before_year y \<le> days_before_year y'"
proof (induction y' rule: int_ge_induct)
  case base
  show ?case by simp
next
  case (step i)
  then show ?case by (simp add: days_before_year_Suc)
qed


lemma new_date_valid: "new_date y m d = Inr dt \<Longrightarrow> valid_date dt"
  by (auto simp: new_date_def valid_date_def split: if_splits)

lemma strptime_valid: "strptime s = Inr dt \<Longrightarrow> valid_date dt"
  unfolding strptime_def
  by (auto split: list.splits prod.splits if_splits dest: new_date_valid)

lemma month_cases:
  "1 \<le> (m::int) \<Longrightarrow> m \<le> 12 \<Longrightarrow>
   m = 1 \<or> m = 2 \<or> m = 3 \<or> m = 4 \<or> m = 5 \<or> m = 6 \<or> m = 7 \<or> m = 8 \<or> m = 9 \<or> m = 10 \<or> m = 11 \<or> m = 12"
  by arith

lemma days_in_month_next:
  assumes "1 \<le> m" "m < 12"
  shows "days_before_month y (m + 1) = days_before_month y m + days_in_month y m"
  using assms month_cases [of m]
  by (auto simp: days_before_month_def days_in_month_def DAYS_BEFORE_MONTH_def DAYS_IN_MONTH_def)


lemma days_in_month_pos: "1 \<le> m \<Longrightarrow> m \<le> 12 \<Longrightarrow> 28 \<le> days_in_month y m"
  using month_cases [of m]
  by (auto simp: days_in_month_def DAYS_IN_MONTH_def)

lemma days_before_month_mono:
  assumes "m < m'"
  shows "1 \<le> m \<Longrightarrow> m' \<le> 12 \<Longrightarrow>
   days_before_month y m + days_in_month y m \<le> days_before_month y m'"
  using assms
proof (induction m' rule: int_gr_induct)
  case base
  then show ?case by (simp add: days_in_month_next)
next
  case (step i)
  then have "days_before_month y m + days_in_month y m \<le> days_before_month y i" by simp
  also have "\<dots> \<le> days_before_month y i + days_in_month y i"
    using days_in_month_pos [of i y] step by simp
  also have "\<dots> = days_before_month y (i + 1)"
    using step by (simp add: days_in_month_next)
  finally show ?case .
qed

lemma day_of_year_bounds:
  assumes "valid_date dt"
  shows "1 \<le> days_before_month (year dt) (month dt) + day dt"
    and "days_before_month (year dt) (month dt) + day dt
           \<le> 365 + (if is_leap (year dt) then 1 else 0)"
proof -
  have m: "1 \<le> month dt" "month dt \<le> 12" and d: "1 \<le> day dt"
    "day dt \<le> days_in_month (year dt) (month dt)"
    using assms by (simp_all add: valid_date_def)
  have "0 \<le> days_before_month (year dt) (month dt)"
    using m month_cases [of "month dt"]
    by (auto simp: days_before_month_def DAYS_BEFORE_MONTH_def)
  then show "1 \<le> days_before_month (year dt) (month dt) + day dt" using d by simp
  have "days_before_month (year dt) (month dt) + days_in_month (year dt) (month dt)
          \<le> 365 + (if is_leap (year dt) then 1 else 0)"
    using m month_cases [of "month dt"]
    by (auto simp: days_before_month_def days_in_month_def DAYS_BEFORE_MONTH_def DAYS_IN_MONTH_def)
  then show "days_before_month (year dt) (month dt) + day dt
           \<le> 365 + (if is_leap (year dt) then 1 else 0)" using d by simp
qed

lemma toordinal_strict_mono:
  assumes a: "valid_date a" and b: "valid_date b" and lt: "date_lt a b"
  shows "toordinal a < toordinal b"
proof (cases "year a < year b")
  case True
  have "toordinal a \<le> days_before_year (year a + 1)"
    using day_of_year_bounds(2) [OF a] by (simp add: toordinal_def days_before_year_Suc)
  also have "\<dots> \<le> days_before_year (year b)"
    using True by (intro days_before_year_mono) simp
  also have "\<dots> < toordinal b"
    using day_of_year_bounds(1) [OF b] by (simp add: toordinal_def)
  finally show ?thesis .
next
  case False
  with lt have y: "year a = year b"
    and m: "month a < month b \<or> (month a = month b \<and> day a < day b)"
    by (auto simp: date_lt_def)
  show ?thesis
  proof (cases "month a < month b")
    case True
    have "days_before_month (year a) (month a) + day a
            \<le> days_before_month (year a) (month a) + days_in_month (year a) (month a)"
      using a by (simp add: valid_date_def)
    also have "\<dots> \<le> days_before_month (year a) (month b)"
      using a b True days_before_month_mono [of "month a" "month b" "year a"]
      by (simp add: valid_date_def)
    also have "\<dots> < days_before_month (year a) (month b) + day b"
      using b by (simp add: valid_date_def)
    finally show ?thesis using y by (simp add: toordinal_def)
  next
    case False
    with m show ?thesis using y by (simp add: toordinal_def)
  qed
qed

lemma date_le_toordinal:
  "valid_date a \<Longrightarrow> valid_date b \<Longrightarrow> date_le a b \<Longrightarrow> toordinal a \<le> toordinal b"
  using toordinal_strict_mono [of a b] by (auto simp: date_le_def)

lemma not_date_le_iff: "\<not> date_le b a \<longleftrightarrow> date_lt a b"
  by (cases a; cases b) (auto simp: date_le_def date_lt_def)

text \<open>
  The parser is the library's: it also accepts a day or a month written without the
  leading zero, and a one-digit day after a space; it rejects text after the year, a year
  of fewer than four digits, and days that the month does not have.
\<close>

lemma strptime_accepts_unpadded:
  "strptime ''1-1-2025'' = Inr (Date 2025 1 1)
   \<and> strptime '' 1-01-2025'' = Inr (Date 2025 1 1)
   \<and> strptime ''01-01-2025 '' = Inl ValueError
   \<and> strptime ''01-01-25'' = Inl ValueError
   \<and> strptime ''29-02-2025'' = Inl ValueError
   \<and> strptime ''29-02-2024'' = Inr (Date 2024 2 29)"
  by code_simp

section \<open>Properties of the phone rule\<close>

lemma re_digits10_iff:
  "list_ex re_dollar (re_digits10 s) \<longleftrightarrow>
     (length s = 10 \<and> list_all is_digit s)
     \<or> (\<exists>p. s = p @ [CHR 0x0A] \<and> length p = 10 \<and> list_all is_digit p)"
proof
  assume "list_ex re_dollar (re_digits10 s)"
  then have l: "10 \<le> length s" and d: "list_all is_digit (take 10 s)"
    and e: "drop 10 s = [] \<or> drop 10 s = [CHR 0x0A]"
    by (auto simp: re_digits10_def re_dollar_def split: if_splits)
  from e show "(length s = 10 \<and> list_all is_digit s)
     \<or> (\<exists>p. s = p @ [CHR 0x0A] \<and> length p = 10 \<and> list_all is_digit p)"
  proof
    assume "drop 10 s = []"
    then have "length s = 10" "take 10 s = s" using l by simp_all
    then show ?thesis using d by simp
  next
    assume n: "drop 10 s = [CHR 0x0A]"
    have "s = take 10 s @ [CHR 0x0A]" using append_take_drop_id [of 10 s] n by simp
    moreover have "length (take 10 s) = 10" using l by simp
    ultimately show ?thesis using d by blast
  qed
next
  assume "(length s = 10 \<and> list_all is_digit s)
     \<or> (\<exists>p. s = p @ [CHR 0x0A] \<and> length p = 10 \<and> list_all is_digit p)"
  then show "list_ex re_dollar (re_digits10 s)"
    by (auto simp: re_digits10_def re_dollar_def)
qed

lemma re_digits10_plus: "re_digits10 (CHR ''+'' # r) = []"
  by (cases "10 \<le> length (CHR ''+'' # r)")
     (auto simp: re_digits10_def is_digit_def take_Cons')

lemma phone_pattern_match_iff:
  "phone_pattern_match phone \<longleftrightarrow>
     phone_format phone \<or> (\<exists>p. phone = p @ [CHR 0x0A] \<and> phone_format p)"
proof (cases phone)
  case Nil
  then show ?thesis
    by (simp add: phone_pattern_match_def re_opt_plus_def re_digits10_def phone_format_def)
next
  case (Cons c r)
  show ?thesis
  proof (cases "c = CHR ''+''")
    case True
    have fmt: "phone_format (CHR ''+'' # t) \<longleftrightarrow> length t = 10 \<and> list_all is_digit t" for t
      by (simp add: phone_format_def)
    have "(\<exists>p. CHR ''+'' # r = p @ [CHR 0x0A] \<and> phone_format p)
          \<longleftrightarrow> (\<exists>p. r = p @ [CHR 0x0A] \<and> length p = 10 \<and> list_all is_digit p)"
    proof
      assume "\<exists>p. CHR ''+'' # r = p @ [CHR 0x0A] \<and> phone_format p"
      then obtain p where p: "CHR ''+'' # r = p @ [CHR 0x0A]" "phone_format p" by blast
      then obtain t where t: "p = CHR ''+'' # t" by (cases p) auto
      with p have "r = t @ [CHR 0x0A]" by simp
      then show "\<exists>p. r = p @ [CHR 0x0A] \<and> length p = 10 \<and> list_all is_digit p"
        using p(2) t fmt by blast
    next
      assume "\<exists>p. r = p @ [CHR 0x0A] \<and> length p = 10 \<and> list_all is_digit p"
      then obtain t where "r = t @ [CHR 0x0A]" "length t = 10" "list_all is_digit t" by blast
      then have "CHR ''+'' # r = (CHR ''+'' # t) @ [CHR 0x0A] \<and> phone_format (CHR ''+'' # t)"
        by (simp add: fmt)
      then show "\<exists>p. CHR ''+'' # r = p @ [CHR 0x0A] \<and> phone_format p" by blast
    qed
    then show ?thesis
      using True Cons re_digits10_iff [of r]
      by (simp add: phone_pattern_match_def re_opt_plus_def re_digits10_plus fmt)
  next
    case False
    have fmt: "phone_format t \<longleftrightarrow> length t = 10 \<and> list_all is_digit t"
      if "t = [] \<or> hd t \<noteq> CHR ''+''" for t
      using that by (cases t) (auto simp: phone_format_def)
    have "(\<exists>p. phone = p @ [CHR 0x0A] \<and> phone_format p)
          \<longleftrightarrow> (\<exists>p. phone = p @ [CHR 0x0A] \<and> length p = 10 \<and> list_all is_digit p)"
    proof -
      have "phone_format p \<longleftrightarrow> length p = 10 \<and> list_all is_digit p"
        if "phone = p @ [CHR 0x0A]" for p
      proof (cases p)
        case Nil
        then show ?thesis by (simp add: phone_format_def)
      next
        case (Cons x xs)
        with that \<open>phone = c # r\<close> have "x = c" by simp
        with False Cons show ?thesis by (intro fmt) simp
      qed
      then show ?thesis by blast
    qed
    moreover have "phone_format phone \<longleftrightarrow> length phone = 10 \<and> list_all is_digit phone"
      using False Cons by (intro fmt) simp
    ultimately show ?thesis
      using False Cons re_digits10_iff [of phone]
      by (simp add: phone_pattern_match_def re_opt_plus_def)
  qed
qed

lemma is_valid_phone_iff:
  "is_valid_phone phone \<longleftrightarrow>
     strip phone = [] \<or> phone_format phone \<or> (\<exists>p. phone = p @ [CHR 0x0A] \<and> phone_format p)"
  by (simp add: is_valid_phone_def phone_pattern_match_iff)

lemma is_valid_phone_no_newline:
  "phone = [] \<or> last phone \<noteq> CHR 0x0A \<Longrightarrow>
   is_valid_phone phone \<longleftrightarrow> strip phone = [] \<or> phone_format phone"
  by (auto simp: is_valid_phone_iff)

text \<open>
  Claim C6. A phone that is blank after trimming passes. A phone that is not blank should
  pass exactly when it is an optional plus sign followed by exactly ten digits and nothing
  else. The code passes those phones, and it also passes such a phone followed by one
  newline: the pattern ends in \<open>$\<close>, which matches before a final newline as well as
  at the end. For the ten digits followed by a newline the phone rule passes, the phone
  is not blank after trimming, and it is not of the required format.
\<close>

theorem is_valid_phone_trailing_newline:
  "is_valid_phone (''1234567890'' @ [CHR 0x0A])
   \<and> strip (''1234567890'' @ [CHR 0x0A]) = ''1234567890''
   \<and> phone_format (''1234567890'' @ [CHR 0x0A]) = False
   \<and> is_valid_phone ''1234567890''"
  by code_simp

section \<open>Properties of the booking validator\<close>

lemma is_valid_date_iff: "is_valid_date s \<longleftrightarrow> (\<exists>d. strptime s = Inr d)"
  by (cases "strptime s") (auto simp: is_valid_date_def split: py_error.splits)

lemma phase1_errors_Nil_iff:
  "phase1_errors name phone room ci co = [] \<longleftrightarrow>
     strip name \<noteq> [] \<and> is_valid_phone phone \<and> room \<in> set ROOM_TYPES
     \<and> is_valid_date ci \<and> is_valid_date co"
  by (simp add: phase1_errors_def)

lemma room_empty: "room = [] \<or> room \<notin> set ROOM_TYPES \<longleftrightarrow> room \<notin> set ROOM_TYPES"
  by (auto simp: ROOM_TYPES_def)

lemma validate_inputs_phase1:
  assumes "phase1_errors name phone room ci co \<noteq> []"
  shows "validate_inputs today name phone room ci co price
           = Inr (False, join [CHR 0x0A] (phase1_errors name phone room ci co))"
  using assms
  unfolding validate_inputs_def phase1_errors_def Let_def room_empty
  by (cases "strip name = []"; cases "is_valid_phone phone"; cases "room \<in> set ROOM_TYPES";
      cases "is_valid_date ci"; cases "is_valid_date co") simp_all


lemma validate_inputs_phase2:
  assumes p1: "phase1_errors name phone room ci co = []"
    and a: "strptime ci = Inr a" and b: "strptime co = Inr b"
  shows "validate_inputs today name phone room ci co price
           = Inr (phase2_failures today a b price = [],
                  join [CHR 0x0A] (phase2_failures today a b price))"
proof -
  have ok: "strip name \<noteq> []" "is_valid_phone phone" "room \<in> set ROOM_TYPES"
    "is_valid_date ci" "is_valid_date co"
    using p1 by (simp_all add: phase1_errors_Nil_iff)
  have ne: "room \<noteq> []" using ok(3) by (auto simp: ROOM_TYPES_def)
  have v: "validate_inputs today name phone room ci co price =
     (let errors = [];
          errors = (if date_lt a today
                    then errors @ [''Check-in date cannot be in the past.''] else errors);
          errors = (if date_le b a
                    then errors @ [''Check-out must be after Check-in.''] else errors);
          errors = (if days_between a b > 30
                    then errors @ [''Maximum stay duration is 30 days.''] else errors);
          errors = (case py_float price of
                      Inr price \<Rightarrow>
                        if float_le_zero price
                        then errors @ [''Price must be positive.''] else errors
                    | Inl ValueError \<Rightarrow> errors @ [''Price must be a number.''])
      in if errors \<noteq> [] then Inr (False, join [CHR 0x0A] errors) else Inr (True, []))"
    unfolding validate_inputs_def using ok ne a b by (simp add: Let_def)
  show ?thesis
  proof (cases "py_float price")
    case (Inl e)
    then show ?thesis
      unfolding v phase2_failures_def Let_def
      by (cases e; cases "date_lt a today"; cases "date_le b a"; cases "30 < days_between a b")
         simp_all
  next
    case (Inr x)
    then show ?thesis
      unfolding v phase2_failures_def Let_def
      by (cases "float_le_zero x"; cases "date_lt a today"; cases "date_le b a";
          cases "30 < days_between a b") simp_all
  qed
qed

lemma validate_inputs_no_exception:
  "\<exists>ok out. validate_inputs today name phone room ci co price = Inr (ok, out)"
proof (cases "phase1_errors name phone room ci co = []")
  case False
  then show ?thesis using validate_inputs_phase1 by blast
next
  case True
  then obtain a b where "strptime ci = Inr a" "strptime co = Inr b"
    by (auto simp: phase1_errors_Nil_iff is_valid_date_iff)
  with True show ?thesis using validate_inputs_phase2 by blast
qed

lemma phase2_failures_checkout:
  "''Check-out must be after Check-in.'' \<in> set (phase2_failures today a b price) \<longleftrightarrow> date_le b a"
  by (simp add: phase2_failures_def)

lemma phase2_failures_max_stay:
  "''Maximum stay duration is 30 days.'' \<in> set (phase2_failures today a b price)
     \<longleftrightarrow> 30 < days_between a b"
  by (simp add: phase2_failures_def)

lemma phase2_failures_no_M:
  assumes "\<not> 30 < days_between a b"
  shows "CHR ''M'' \<notin> set (join [CHR 0x0A] (phase2_failures today a b price))"
proof -
  have "set (phase2_failures today a b price) \<subseteq>
          {''Check-in date cannot be in the past.'', ''Check-out must be after Check-in.'',
           ''Price must be positive.'', ''Price must be a number.''}"
    using assms by (auto simp: phase2_failures_def)
  then have "\<forall>m \<in> set (phase2_failures today a b price). CHR ''M'' \<notin> set m"
    by auto
  then show ?thesis
    using set_join [of "[CHR 0x0A]" "phase2_failures today a b price"] by auto
qed


lemma phase1_passes:
  assumes "strip name \<noteq> []" "is_valid_phone phone" "room \<in> set ROOM_TYPES"
    "strptime ci = Inr a" "strptime co = Inr b"
  shows "phase1_errors name phone room ci co = []"
  using assms by (simp add: phase1_errors_Nil_iff is_valid_date_iff)

text \<open>
  The first pass of the code: when it collects a message, the result is \<open>ok = False\<close>
  with the collected messages joined by newlines, whatever the current date and the
  price are. An empty name with the phone 12345, the other three fields passing, gives
  the name message followed by the phone message.
\<close>

lemma validate_inputs_first_pass:
  "(phase1_errors name phone room ci co \<noteq> [] \<longrightarrow>
      validate_inputs today name phone room ci co price
        = Inr (False, join [CHR 0x0A] (phase1_errors name phone room ci co))
      \<and> validate_inputs today' name phone room ci co price'
        = validate_inputs today name phone room ci co price)
   \<and> (room \<in> set ROOM_TYPES \<and> is_valid_date ci \<and> is_valid_date co \<longrightarrow>
      validate_inputs today [] ''12345'' room ci co price
        = Inr (False, ''Customer name is required.'' @ [CHR 0x0A]
                 @ ''Phone number should be 10 digits (optional + at start).''))"
proof (intro conjI impI)
  assume f: "phase1_errors name phone room ci co \<noteq> []"
  then show "validate_inputs today name phone room ci co price
        = Inr (False, join [CHR 0x0A] (phase1_errors name phone room ci co))"
    by (rule validate_inputs_phase1)
  from f show "validate_inputs today' name phone room ci co price'
        = validate_inputs today name phone room ci co price"
    by (simp add: validate_inputs_phase1)
next
  assume ok: "room \<in> set ROOM_TYPES \<and> is_valid_date ci \<and> is_valid_date co"
  have s: "strip [] = []" by (simp add: strip_def)
  have p: "\<not> is_valid_phone ''12345''" by code_simp
  have "phase1_errors [] ''12345'' room ci co =
          [''Customer name is required.'',
           ''Phone number should be 10 digits (optional + at start).'']"
    using ok s p by (simp add: phase1_errors_def)
  then show "validate_inputs today [] ''12345'' room ci co price
        = Inr (False, ''Customer name is required.'' @ [CHR 0x0A]
                 @ ''Phone number should be 10 digits (optional + at start).'')"
    using validate_inputs_phase1 [of "[]" "''12345''" room ci co today price] by simp
qed

text \<open>
  The checks of the first pass are the rules 1 to 5 for every phone that does not end in
  a newline; for those phones the first pass returns exactly the messages of the failing
  rules, in the order of the rules, and does not evaluate the rules 6 to 9.
\<close>

lemma strptime_fails_iff: "strptime s = Inl ValueError \<longleftrightarrow> \<not> is_valid_date s"
  by (cases "strptime s") (auto simp: is_valid_date_def split: py_error.splits)

lemma phase1_failures_eq_errors:
  assumes "phone = [] \<or> last phone \<noteq> CHR 0x0A"
  shows "phase1_failures name phone room ci co = phase1_errors name phone room ci co"
proof -
  have "is_valid_phone phone \<longleftrightarrow> phone_rule phone"
    using is_valid_phone_no_newline [OF assms] by (simp add: phone_rule_def)
  moreover have "set ROOM_TYPES = {''Single'', ''Double'', ''Luxury''}"
    by (simp add: ROOM_TYPES_def)
  ultimately show ?thesis
    by (simp only: phase1_failures_def phase1_errors_def strptime_fails_iff)
qed

lemma validate_inputs_two_phase_no_newline:
  assumes "phone = [] \<or> last phone \<noteq> CHR 0x0A"
    and "phase1_failures name phone room ci co \<noteq> []"
  shows "validate_inputs today name phone room ci co price
           = Inr (False, join [CHR 0x0A] (phase1_failures name phone room ci co))"
    and "validate_inputs today' name phone room ci co price'
           = validate_inputs today name phone room ci co price"
  using assms(2) validate_inputs_phase1 [of name phone room ci co]
  unfolding phase1_failures_eq_errors [OF assms(1)] by simp_all

text \<open>
  Claim C1. Validation has two phases: when at least one of the rules 1 to 5 fails (name
  not blank, phone format, room in the catalog, check-in parses, check-out parses), the
  result should be \<open>ok = False\<close> with exactly the messages of the failing rules among
  these five, in the order of the rules. For a phone of ten digits followed by a newline
  the phone rule fails, so the phone message is due. The code collects no message for it:
  with the other fields valid the booking is accepted, and with an empty name the output
  is the name message alone.
\<close>

theorem validate_inputs_newline_phone:
  "phase1_failures ''Jane Doe'' (''1234567890'' @ [CHR 0x0A]) ''Double'' ''04-11-2026'' ''05-11-2026''
     = [''Phone number should be 10 digits (optional + at start).'']
   \<and> validate_inputs (Date 2026 11 4) ''Jane Doe'' (''1234567890'' @ [CHR 0x0A]) ''Double''
        ''04-11-2026'' ''05-11-2026'' ''5000'' = Inr (True, [])
   \<and> phase1_failures [] (''1234567890'' @ [CHR 0x0A]) ''Double'' ''04-11-2026'' ''05-11-2026''
     = [''Customer name is required.'',
        ''Phone number should be 10 digits (optional + at start).'']
   \<and> validate_inputs (Date 2026 11 4) [] (''1234567890'' @ [CHR 0x0A]) ''Double''
        ''04-11-2026'' ''05-11-2026'' ''5000'' = Inr (False, ''Customer name is required.'')"
  by code_simp

text \<open>
  The date-order rule belongs to the second phase: with an empty name and equal, well
  formed dates, the output is the name message alone.
\<close>

theorem validate_inputs_equal_dates_counterexample:
  "validate_inputs (Date 2026 11 4) [] [] ''Double'' ''10-11-2026'' ''10-11-2026'' ''5000''
     = Inr (False, ''Customer name is required.'')
   \<and> \<not> contains ''Check-out must be after Check-in.'' ''Customer name is required.''"
  by code_simp

text \<open>
  Claim C2, as amended. When name, phone and room pass the rules 1 to 3 and check-in and
  check-out parse to the same date, the result is \<open>ok = False\<close> and its output includes
  the message "Check-out must be after Check-in.", whatever the price and the current
  date are.
\<close>

theorem validate_inputs_equal_dates:
  assumes "strip name \<noteq> []" and "is_valid_phone phone" and "room \<in> set ROOM_TYPES"
    and "strptime ci = Inr d" and "strptime co = Inr d"
  shows "\<exists>out. validate_inputs today name phone room ci co price = Inr (False, out)
           \<and> contains ''Check-out must be after Check-in.'' out"
proof -
  let ?es = "phase2_failures today d d price"
  have m: "''Check-out must be after Check-in.'' \<in> set ?es"
    by (simp add: phase2_failures_checkout date_le_def)
  then have ne: "?es \<noteq> []" by auto
  have "validate_inputs today name phone room ci co price = Inr (?es = [], join [CHR 0x0A] ?es)"
    using assms by (intro validate_inputs_phase2 phase1_passes)
  with ne m show ?thesis by (simp add: join_contains)
qed

theorem validate_inputs_equal_dates_witness:
  "strip ''Jane Doe'' \<noteq> [] \<and> is_valid_phone [] \<and> ''Double'' \<in> set ROOM_TYPES
   \<and> strptime ''10-11-2026'' = Inr (Date 2026 11 10)
   \<and> strptime ''10-11-2026'' = Inr (Date 2026 11 10)
   \<and> (\<exists>out. validate_inputs (Date 2026 11 4) ''Jane Doe'' [] ''Double'' ''10-11-2026''
                ''10-11-2026'' ''abc'' = Inr (False, out)
           \<and> contains ''Check-out must be after Check-in.'' out)"
proof -
  have n: "strip ''Jane Doe'' \<noteq> []" by code_simp
  have p: "is_valid_phone []" by code_simp
  have r: "''Double'' \<in> set ROOM_TYPES" by code_simp
  have d: "strptime ''10-11-2026'' = Inr (Date 2026 11 10)" by code_simp
  show ?thesis
    using validate_inputs_equal_dates [OF n p r d d, of "Date 2026 11 4" "''abc''"] n p r d
    by simp
qed

text \<open>
  Claim C7. For an input that passes the rules 1 to 5: when check-out is more than 30
  days after check-in, the result is \<open>ok = False\<close> and its output includes "Maximum stay
  duration is 30 days."; when the stay is exactly 30 days, the output does not include
  that message.
\<close>

theorem validate_inputs_max_stay:
  assumes "strip name \<noteq> []" and "is_valid_phone phone" and "room \<in> set ROOM_TYPES"
    and "strptime ci = Inr a" and "strptime co = Inr b"
  shows "(30 < days_between a b \<longrightarrow>
            (\<exists>out. validate_inputs today name phone room ci co price = Inr (False, out)
               \<and> contains ''Maximum stay duration is 30 days.'' out))
       \<and> (days_between a b = 30 \<longrightarrow>
            (\<exists>ok out. validate_inputs today name phone room ci co price = Inr (ok, out)
               \<and> \<not> contains ''Maximum stay duration is 30 days.'' out))"
proof -
  let ?es = "phase2_failures today a b price"
  have v: "validate_inputs today name phone room ci co price = Inr (?es = [], join [CHR 0x0A] ?es)"
    using assms by (intro validate_inputs_phase2 phase1_passes)
  show ?thesis
  proof (intro conjI impI)
    assume "30 < days_between a b"
    then have m: "''Maximum stay duration is 30 days.'' \<in> set ?es"
      by (simp add: phase2_failures_max_stay)
    then have "?es \<noteq> []" by auto
    with v m show "\<exists>out. validate_inputs today name phone room ci co price = Inr (False, out)
               \<and> contains ''Maximum stay duration is 30 days.'' out"
      by (simp add: join_contains)
  next
    assume "days_between a b = 30"
    then have "CHR ''M'' \<notin> set (join [CHR 0x0A] ?es)"
      by (intro phase2_failures_no_M) simp
    moreover have "CHR ''M'' \<in> set ''Maximum stay duration is 30 days.''" by simp
    ultimately have "\<not> contains ''Maximum stay duration is 30 days.'' (join [CHR 0x0A] ?es)"
      using contains_set by blast
    with v show "\<exists>ok out. validate_inputs today name phone room ci co price = Inr (ok, out)
               \<and> \<not> contains ''Maximum stay duration is 30 days.'' out"
      by blast
  qed
qed

theorem validate_inputs_max_stay_witness:
  "strip ''Jane Doe'' \<noteq> [] \<and> is_valid_phone [] \<and> ''Double'' \<in> set ROOM_TYPES
   \<and> strptime ''04-11-2026'' = Inr (Date 2026 11 4)
   \<and> strptime ''05-12-2026'' = Inr (Date 2026 12 5)
   \<and> strptime ''04-12-2026'' = Inr (Date 2026 12 4)
   \<and> 30 < days_between (Date 2026 11 4) (Date 2026 12 5)
   \<and> days_between (Date 2026 11 4) (Date 2026 12 4) = 30
   \<and> (\<exists>out. validate_inputs (Date 2026 11 4) ''Jane Doe'' [] ''Double'' ''04-11-2026''
                ''05-12-2026'' ''5000'' = Inr (False, out)
           \<and> contains ''Maximum stay duration is 30 days.'' out)
   \<and> (\<exists>ok out. validate_inputs (Date 2026 11 4) ''Jane Doe'' [] ''Double'' ''04-11-2026''
                ''04-12-2026'' ''5000'' = Inr (ok, out)
           \<and> \<not> contains ''Maximum stay duration is 30 days.'' out)"
proof -
  have n: "strip ''Jane Doe'' \<noteq> []" by code_simp
  have p: "is_valid_phone []" by code_simp
  have r: "''Double'' \<in> set ROOM_TYPES" by code_simp
  have a: "strptime ''04-11-2026'' = Inr (Date 2026 11 4)" by code_simp
  have b: "strptime ''05-12-2026'' = Inr (Date 2026 12 5)" by code_simp
  have c: "strptime ''04-12-2026'' = Inr (Date 2026 12 4)" by code_simp
  have d31: "days_between (Date 2026 11 4) (Date 2026 12 5) = 31" by code_simp
  have d30: "days_between (Date 2026 11 4) (Date 2026 12 4) = 30" by code_simp
  have g: "30 < days_between (Date 2026 11 4) (Date 2026 12 5)" by (simp add: d31)
  show ?thesis
    using validate_inputs_max_stay [OF n p r a b, of "Date 2026 11 4" "''5000''"]
          validate_inputs_max_stay [OF n p r a c, of "Date 2026 11 4" "''5000''"]
          n p r a b c g d30
    by blast
qed

text \<open>
  A stay of 31 days with every other field valid is rejected with the maximum-duration
  message alone.
\<close>

lemma validate_inputs_31_days:
  "validate_inputs (Date 2026 11 4) ''Jane Doe'' [] ''Double'' ''04-11-2026'' ''05-12-2026'' ''5000''
     = Inr (False, ''Maximum stay duration is 30 days.'')"
  by code_simp

text \<open>
  The candidate of the specification is accepted: name Jane Doe, no phone, a Double room,
  a check-in string that parses to the current date, a check-out string that parses to
  the day after, and the price 5000.
\<close>

lemma validate_inputs_accepts_valid_candidate:
  assumes ci: "strptime ci = Inr today" and co: "strptime co = Inr tomorrow"
    and next_day: "toordinal tomorrow = toordinal today + 1"
  shows "validate_inputs today ''Jane Doe'' [] ''Double'' ci co ''5000'' = Inr (True, [])"
proof -
  have n: "strip ''Jane Doe'' \<noteq> []" by code_simp
  have p: "is_valid_phone []" by code_simp
  have r: "''Double'' \<in> set ROOM_TYPES" by code_simp
  have f: "py_float ''5000'' = Inr (Dec False 5000 0)" by code_simp
  have "\<not> date_le tomorrow today"
    using date_le_toordinal [of tomorrow today] strptime_valid [OF ci] strptime_valid [OF co]
      next_day by auto
  moreover have "\<not> date_lt today today" by (simp add: date_lt_def)
  moreover have "days_between today tomorrow = 1" using next_day by (simp add: days_between_def)
  ultimately have "phase2_failures today today tomorrow ''5000'' = []"
    using f by (simp add: phase2_failures_def rounds_to_zero_def)
  then show ?thesis
    using validate_inputs_phase2 [OF phase1_passes [OF n p r ci co] ci co, of today "''5000''"]
    by simp
qed

text \<open>
  What the code accepts: \<open>ok = True\<close> with empty output exactly when the five rules of
  the first phase pass as the code checks them, check-in is not before the current date,
  check-out is after check-in by at most 30 days, and \<open>float\<close> of the price does not
  raise and is not \<open><= 0\<close>. Every other input gets \<open>ok = False\<close> with a non-empty list
  of messages joined by newlines.
\<close>

lemma phase2_failures_Nil_iff:
  "phase2_failures today a b price = [] \<longleftrightarrow>
     \<not> date_lt a today \<and> date_lt a b \<and> days_between a b \<le> 30
     \<and> (\<exists>x. py_float price = Inr x \<and> \<not> float_le_zero x)"
  by (cases "py_float price") (auto simp: phase2_failures_def not_date_le_iff [symmetric])

lemma validate_inputs_ok_iff:
  "validate_inputs today name phone room ci co price = Inr (True, []) \<longleftrightarrow>
     strip name \<noteq> [] \<and> is_valid_phone phone \<and> room \<in> set ROOM_TYPES
     \<and> (\<exists>a b x. strptime ci = Inr a \<and> strptime co = Inr b
           \<and> \<not> date_lt a today \<and> date_lt a b \<and> days_between a b \<le> 30
           \<and> py_float price = Inr x \<and> \<not> float_le_zero x)"
proof (cases "phase1_errors name phone room ci co = []")
  case False
  then show ?thesis
    using validate_inputs_phase1 [OF False, of today price]
    by (auto simp: phase1_errors_Nil_iff is_valid_date_iff)
next
  case True
  then obtain a b where ab: "strptime ci = Inr a" "strptime co = Inr b"
    by (auto simp: phase1_errors_Nil_iff is_valid_date_iff)
  have "validate_inputs today name phone room ci co price = Inr (True, [])
          \<longleftrightarrow> phase2_failures today a b price = []"
    using validate_inputs_phase2 [OF True ab, of today price] by auto
  then show ?thesis
    using True ab by (auto simp: phase1_errors_Nil_iff phase2_failures_Nil_iff)
qed

lemma validate_inputs_rejects:
  "validate_inputs today name phone room ci co price \<noteq> Inr (True, []) \<Longrightarrow>
   \<exists>es. es \<noteq> [] \<and> validate_inputs today name phone room ci co price
                      = Inr (False, join [CHR 0x0A] es)"
proof (cases "phase1_errors name phone room ci co = []")
  case False
  then show ?thesis using validate_inputs_phase1 [OF False, of today price] by blast
next
  case True
  assume n: "validate_inputs today name phone room ci co price \<noteq> Inr (True, [])"
  from True obtain a b where ab: "strptime ci = Inr a" "strptime co = Inr b"
    by (auto simp: phase1_errors_Nil_iff is_valid_date_iff)
  have v: "validate_inputs today name phone room ci co price
        = Inr (phase2_failures today a b price = [], join [CHR 0x0A] (phase2_failures today a b price))"
    by (rule validate_inputs_phase2 [OF True ab])
  with n have "phase2_failures today a b price \<noteq> []" by auto
  with v show ?thesis by auto
qed

text \<open>
  Claim C8. The candidate of the specification is accepted, and a candidate should be
  accepted only when every rule passes. The code accepts the price \<open>nan\<close>: \<open>float\<close>
  parses it to not-a-number, for which \<open>price <= 0\<close> is false, so neither price message
  is added although the price is not a positive number. It also accepts a phone of ten
  digits followed by a newline. With the price 5000 and no phone the candidate is
  accepted, as the specification says.
\<close>

theorem validate_inputs_accepts_nan_price:
  "validate_inputs (Date 2026 11 4) ''Jane Doe'' [] ''Double'' ''04-11-2026'' ''05-11-2026'' ''nan''
     = Inr (True, [])
   \<and> py_float ''nan'' = Inr NaN
   \<and> validate_inputs (Date 2026 11 4) ''Jane Doe'' (''1234567890'' @ [CHR 0x0A]) ''Double''
        ''04-11-2026'' ''05-11-2026'' ''5000'' = Inr (True, [])
   \<and> validate_inputs (Date 2026 11 4) ''Jane Doe'' [] ''Double'' ''04-11-2026'' ''05-11-2026'' ''5000''
     = Inr (True, [])"
  by code_simp

end
